theory Spec2Isabelle
  imports Main "HOL-Library.Word"
begin

section \<open>The packer of miknet: \<^verbatim>\<open>src/mikpack.c\<close>\<close>

text \<open>
  The file embeds the five functions of \<^verbatim>\<open>mikpack.c\<close>: \<^verbatim>\<open>fragments\<close>,
  \<^verbatim>\<open>fragment_data_size\<close>, \<^verbatim>\<open>semi_fragment_data_size\<close>, \<^verbatim>\<open>mikpack_mem_est\<close> and
  \<^verbatim>\<open>mikpack\<close>.

  Conventions.
  \<^item> A \<^verbatim>\<open>size_t\<close> is a \<open>nat\<close>: the only arithmetic on the payload length is a division
    and a remainder, and no sum or product of \<^verbatim>\<open>size_t\<close> values in the file can reach
    the width of the type while the constants are of protocol size. Every theorem holds
    for every \<open>nat\<close>, hence for every \<^verbatim>\<open>size_t\<close>.
  \<^item> A \<^verbatim>\<open>uint16_t\<close> is a \<open>16 word\<close> and a \<^verbatim>\<open>uint32_t\<close> a \<open>32 word\<close>: the narrowing
    conversions of the source are \<open>word_of_nat\<close>, and \<open>+\<close> wraps.
  \<^item> A pointer argument is an \<open>option\<close>, \<open>None\<close> being the null pointer.
\<close>

subsection \<open>Constants of the headers\<close>

text \<open>
  The four macros that \<^verbatim>\<open>mikpack.c\<close> uses are defined in \<^verbatim>\<open>miknet/mikpack.h\<close> and
  \<^verbatim>\<open>miknet/mikmeta.h\<close>, and their values are not part of the packer: they are taken as
  parameters, collected in one record. Nothing is assumed about them in the definitions;
  a theorem that needs a relation between them states it.
\<close>

record mikcfg =
  MIKPACK_FRAG_SIZE :: nat
  MIKPACK_REAL_FRAG_SIZE :: nat
  MIKFRAG_HEADER_SIZE :: nat
  MIKMETA_SERIALIZED_OCTETS :: nat

text \<open>
  Modelled from the spec: the relation between the macros, which the headers fix. A fragment
  holds at least one payload octet, the header of the estimator is the serialized
  metadata of the packer, and the stride is ``header size + maximum payload size''. The
  bound on the stride keeps the \<^verbatim>\<open>uint32_t\<close> offset of the last of up to \<open>2^16 - 1\<close>
  fragments exact.
\<close>

definition cfg_ok :: "mikcfg \<Rightarrow> bool" where
  "cfg_ok c \<longleftrightarrow>
     0 < MIKPACK_FRAG_SIZE c \<and>
     MIKFRAG_HEADER_SIZE c = MIKMETA_SERIALIZED_OCTETS c \<and>
     MIKPACK_REAL_FRAG_SIZE c = MIKPACK_FRAG_SIZE c + MIKFRAG_HEADER_SIZE c \<and>
     MIKPACK_REAL_FRAG_SIZE c < 2 ^ 16"

text \<open>
  The constants of the scenario of the spec: two payload octets in a fragment. The header
  has the six octets of \<^verbatim>\<open>MIK_META_SZ\<close>.
\<close>

definition cfg2 :: mikcfg where
  "cfg2 = \<lparr>MIKPACK_FRAG_SIZE = 2, MIKPACK_REAL_FRAG_SIZE = 8,
           MIKFRAG_HEADER_SIZE = 6, MIKMETA_SERIALIZED_OCTETS = 6\<rparr>"

subsection \<open>Counting fragments and estimating memory\<close>

text \<open>
  \<^verbatim>\<open>static uint16_t fragments(size_t len, size_t *remainder)\<close>: the quotient is narrowed to
  16 bits by the initialisation, the increment wraps, and the remainder is returned
  through the pointer: here as the second component.
\<close>

definition fragments :: "mikcfg \<Rightarrow> nat \<Rightarrow> 16 word \<times> nat" where
  "fragments c len =
     (let frags = (word_of_nat (len div MIKPACK_FRAG_SIZE c) :: 16 word);
          remainder = len mod MIKPACK_FRAG_SIZE c
      in (if remainder \<noteq> 0 then frags + 1 else frags, remainder))"

definition fragment_data_size :: "mikcfg \<Rightarrow> 16 word \<Rightarrow> nat" where
  "fragment_data_size c frags = unat frags * MIKPACK_FRAG_SIZE c"

definition semi_fragment_data_size :: "mikcfg \<Rightarrow> nat \<Rightarrow> nat" where
  "semi_fragment_data_size c len = len + MIKFRAG_HEADER_SIZE c"

definition mikpack_mem_est :: "mikcfg \<Rightarrow> nat \<Rightarrow> nat" where
  "mikpack_mem_est c len =
     (case fragments c len of (frags, remainder) \<Rightarrow>
        let mem_est = fragment_data_size c frags
        in if remainder \<noteq> 0 \<or> len = 0
           then mem_est + semi_fragment_data_size c remainder
           else mem_est)"

subsection \<open>Data of the packer\<close>

type_synonym byte = "8 word"
type_synonym addr = nat

text \<open>\<^verbatim>\<open>miktype_t\<close>, in the order of its values \<open>-1\<close>, \<open>0\<close>, \<open>1\<close>, \<open>2\<close>.\<close>

datatype miktype_t = MIK_ERR | MIK_JOIN | MIK_QUIT | MIK_DATA

text \<open>
  Modelled from the spec: the result codes of \<^verbatim>\<open>miknet/mikdef.h\<close>, which is not among the
  sources. \<^verbatim>\<open>mikpack.c\<close> names \<open>MIKERR_NONE\<close> and \<open>MIKERR_BAD_PTR\<close> (``bad-argument''); the
  other twelve members of the error domain carry the names of the enumeration of the
  older header.
\<close>

datatype mikerr =
    MIKERR_NONE | MIKERR_BAD_PTR
  | ERR_MISSING_PTR | ERR_INVALID_MODE | ERR_SOCKET | ERR_ADDRESS | ERR_SOCK_OPT
  | ERR_BIND | ERR_CONNECT | ERR_PEER_MAX | ERR_POLL | ERR_MEMORY | ERR_WOULD_FAULT
  | ERR_LISTEN

text \<open>
  Modelled from the spec: \<^verbatim>\<open>mikmeta_t\<close> of \<^verbatim>\<open>miknet/mikmeta.h\<close>, the send-oriented
  fragment header with the four fields that \<^verbatim>\<open>mikpack\<close> assigns: \<^verbatim>\<open>id\<close>, \<^verbatim>\<open>type\<close>,
  \<^verbatim>\<open>part\<close> and \<^verbatim>\<open>size\<close> (suffixed here, \<open>id\<close> and \<open>size\<close> being constants of HOL). The
  part index is compared with the \<^verbatim>\<open>uint16_t\<close> count of fragments and has its width; the
  identifier is an opaque value.
\<close>

record mikmeta_t =
  id_meta :: nat
  type_meta :: miktype_t
  part_meta :: "16 word"
  size_meta :: nat

text \<open>
  Modelled from the spec: \<^verbatim>\<open>mikpack_t\<close> of \<^verbatim>\<open>miknet/mikpack.h\<close>, the handle of a packed
  message: a reference count and a raw pointer to the fragment buffer.
\<close>

record mikpack_t =
  ref_count :: nat
  data :: "addr option"

text \<open>
  The memory behind \<^verbatim>\<open>dest\<close>, by offset from \<^verbatim>\<open>dest\<close>. An octet of it is either an octet
  that \<^verbatim>\<open>memcpy\<close> copied from the payload, or the \<open>k\<close>-th octet of the serialization of a
  header: \<^verbatim>\<open>mikmeta_serialize\<close> is not among the sources, and the octets it produces are
  kept symbolic. An offset that holds \<open>None\<close> has not been written.
\<close>

datatype octet = Hdr mikmeta_t nat | Oct byte

text \<open>
  The calls that leave \<^verbatim>\<open>mikpack.c\<close>. The file calls \<^verbatim>\<open>mikid\<close>, \<^verbatim>\<open>mikmeta_serialize\<close>
  (with the header and the offset of its target from \<^verbatim>\<open>dest\<close>) and \<^verbatim>\<open>memcpy\<close> (with the
  offset of its target from \<^verbatim>\<open>dest\<close>, the offset of its source from \<^verbatim>\<open>src\<close> and the
  number of octets). The fourth kind of call is the allocator that the header of the
  library declares, \<^verbatim>\<open>void *mik_try_alloc(void *ptr, size_t bytes)\<close>.
\<close>

datatype call =
    Call_mikid
  | Call_mikmeta_serialize mikmeta_t nat
  | Call_memcpy nat nat nat
  | Call_mik_try_alloc "addr option" nat

fun is_alloc :: "call \<Rightarrow> bool" where
  "is_alloc (Call_mik_try_alloc ptr bytes) = True"
| "is_alloc Call_mikid = False"
| "is_alloc (Call_mikmeta_serialize metadata p) = False"
| "is_alloc (Call_memcpy p q n) = False"

text \<open>
  What a call of \<^verbatim>\<open>mikpack\<close> can change besides the handle: the memory behind \<^verbatim>\<open>dest\<close>,
  the headers passed to \<^verbatim>\<open>mikmeta_serialize\<close> so far, in the order of the calls, and the
  calls made so far, the oldest first.
\<close>

record store =
  dest_octets :: "nat \<rightharpoonup> octet"
  meta_calls :: "mikmeta_t list"
  calls :: "call list"

text \<open>Storing a run of octets from an offset on.\<close>

fun write_octets :: "(nat \<rightharpoonup> octet) \<Rightarrow> nat \<Rightarrow> octet list \<Rightarrow> (nat \<rightharpoonup> octet)" where
  "write_octets mem p [] = mem"
| "write_octets mem p (x # xs) = write_octets (mem(p \<mapsto> x)) (Suc p) xs"

text \<open>
  Modelled from the spec: \<^verbatim>\<open>mikmeta_serialize(&metadata, p)\<close> of the fragment header codec
  stores the fixed-size serialization of the header, \<^verbatim>\<open>MIKMETA_SERIALIZED_OCTETS\<close> octets,
  from \<open>p\<close> on.
\<close>

definition mikmeta_serialize :: "mikcfg \<Rightarrow> mikmeta_t \<Rightarrow> nat \<Rightarrow> store \<Rightarrow> store" where
  "mikmeta_serialize c metadata p s =
     s\<lparr>dest_octets :=
          write_octets (dest_octets s) p
            (map (Hdr metadata) [0 ..< MIKMETA_SERIALIZED_OCTETS c]),
       meta_calls := meta_calls s @ [metadata],
       calls := calls s @ [Call_mikmeta_serialize metadata p]\<rparr>"

text \<open>
  \<^verbatim>\<open>memcpy(dest + p, src + q, n)\<close>, the payload being the readable memory \<open>src\<close> behind the
  source pointer.
\<close>

definition memcpy :: "nat \<Rightarrow> (nat \<Rightarrow> byte) \<Rightarrow> nat \<Rightarrow> nat \<Rightarrow> store \<Rightarrow> store" where
  "memcpy p src q n s =
     s\<lparr>dest_octets :=
          write_octets (dest_octets s) p (map (\<lambda>j. Oct (src (q + j))) [0 ..< n]),
       calls := calls s @ [Call_memcpy p q n]\<rparr>"

subsection \<open>Packing\<close>

text \<open>
  The loop of \<^verbatim>\<open>mikpack\<close>, from the current \<^verbatim>\<open>metadata.part\<close> on. The comparison
  \<^verbatim>\<open>metadata.part == frags - 1\<close> is one of \<^verbatim>\<open>int\<close> values, and the product of the part
  index and the stride is narrowed to the \<^verbatim>\<open>uint32_t offset\<close>.
\<close>

function mikpack_loop ::
  "mikcfg \<Rightarrow> (nat \<Rightarrow> byte) \<Rightarrow> 16 word \<Rightarrow> nat \<Rightarrow> mikmeta_t \<Rightarrow> store \<Rightarrow> store" where
  "mikpack_loop c src frags remainder metadata s =
     (if part_meta metadata < frags then
        let offset = (word_of_nat (unat (part_meta metadata) * MIKPACK_REAL_FRAG_SIZE c)
                        :: 32 word);
            metadata = metadata\<lparr>size_meta :=
              (if uint (part_meta metadata) = uint frags - 1 \<and> remainder \<noteq> 0
               then remainder else MIKPACK_FRAG_SIZE c)\<rparr>;
            s = mikmeta_serialize c metadata (unat offset) s;
            s = memcpy (unat offset + MIKMETA_SERIALIZED_OCTETS c) src
                  (unat (part_meta metadata) * MIKPACK_FRAG_SIZE c) (size_meta metadata) s
        in mikpack_loop c src frags remainder
             (metadata\<lparr>part_meta := part_meta metadata + 1\<rparr>) s
      else s)"
  by pat_completeness auto

termination
proof (relation "measure (\<lambda>(c, src, frags, remainder, metadata, s).
                  unat frags - unat (part_meta metadata))")
  show "wf (measure (\<lambda>(c, src, frags, remainder, metadata, s).
                  unat frags - unat (part_meta metadata)))"
    by simp
next
  fix c :: mikcfg and src :: "nat \<Rightarrow> byte" and frags :: "16 word" and remainder :: nat
    and metadata :: mikmeta_t and s :: store and offset :: "32 word"
    and metadata' :: mikmeta_t and s' s'' :: store
  assume lt: "part_meta metadata < frags"
    and m: "metadata' = metadata\<lparr>size_meta :=
              (if uint (part_meta metadata) = uint frags - 1 \<and> remainder \<noteq> 0
               then remainder else MIKPACK_FRAG_SIZE c)\<rparr>"
  from lt have below: "unat (part_meta metadata) < unat frags"
    by (simp add: word_less_nat_alt)
  moreover have "unat frags < 2 ^ 16" using unsigned_less [of frags] by simp
  ultimately have "unat (part_meta metadata) + 1 < 2 ^ 16" by simp
  then have "unat (part_meta metadata + 1) = Suc (unat (part_meta metadata))"
    by (simp add: unat_word_ariths)
  with below m
  show "((c, src, frags, remainder, metadata'\<lparr>part_meta := part_meta metadata' + 1\<rparr>, s''),
         (c, src, frags, remainder, metadata, s))
        \<in> measure (\<lambda>(c, src, frags, remainder, metadata, s).
                  unat frags - unat (part_meta metadata))"
    by simp
qed

declare mikpack_loop.simps [simp del]

text \<open>
  \<^verbatim>\<open>int mikpack(mikpack_t *pack, const uint8_t *src, size_t len, uint8_t *dest)\<close>. The
  second argument of the model is the value that the call of \<^verbatim>\<open>mikid()\<close> returns. The
  result is the code returned, the handle behind \<^verbatim>\<open>pack\<close> and the store, in which the
  call of \<^verbatim>\<open>mikid()\<close> is recorded where the source makes it. The local
  \<^verbatim>\<open>metadata.size\<close> is indeterminate until the loop assigns it; it starts as \<open>0\<close> here.
\<close>

definition mikpack ::
  "mikcfg \<Rightarrow> nat \<Rightarrow> mikpack_t option \<Rightarrow> (nat \<Rightarrow> byte) option \<Rightarrow> nat \<Rightarrow> addr option \<Rightarrow> store
     \<Rightarrow> mikerr \<times> mikpack_t option \<times> store" where
  "mikpack c mikid pack src len dest s =
     (if pack = None \<or> src = None \<or> len = 0 \<or> dest = None
      then (MIKERR_BAD_PTR, pack, s)
      else
        let pack' = (the pack)\<lparr>ref_count := 0, data := dest\<rparr>;
            s = s\<lparr>calls := calls s @ [Call_mikid]\<rparr>;
            metadata = \<lparr>id_meta = mikid, type_meta = MIK_DATA, part_meta = 0, size_meta = 0\<rparr>;
            (frags, remainder) = fragments c len
        in (MIKERR_NONE, Some pack', mikpack_loop c (the src) frags remainder metadata s))"

subsection \<open>The loop in closed form\<close>

text \<open>
  The definitions of this subsection are not functions of the source: they name what
  one round of the loop does to fragment \<open>i\<close> of \<open>n\<close>, so that the loop can be compared
  with a \<open>fold\<close> over the part indices. \<open>r\<close> is the remainder, \<open>m\<close> the metadata with
  which the loop starts.
\<close>

definition frag_size :: "mikcfg \<Rightarrow> nat \<Rightarrow> nat \<Rightarrow> nat \<Rightarrow> nat" where
  "frag_size c n r i = (if Suc i = n \<and> r \<noteq> 0 then r else MIKPACK_FRAG_SIZE c)"

definition frag_meta :: "mikcfg \<Rightarrow> mikmeta_t \<Rightarrow> nat \<Rightarrow> nat \<Rightarrow> nat \<Rightarrow> mikmeta_t" where
  "frag_meta c m n r i = m\<lparr>part_meta := word_of_nat i, size_meta := frag_size c n r i\<rparr>"

definition frag_offset :: "mikcfg \<Rightarrow> nat \<Rightarrow> nat" where
  "frag_offset c i = unat (word_of_nat (i * MIKPACK_REAL_FRAG_SIZE c) :: 32 word)"

definition put_frag ::
  "mikcfg \<Rightarrow> (nat \<Rightarrow> byte) \<Rightarrow> mikmeta_t \<Rightarrow> nat \<Rightarrow> nat \<Rightarrow> nat \<Rightarrow> store \<Rightarrow> store" where
  "put_frag c src m n r i s =
     memcpy (frag_offset c i + MIKMETA_SERIALIZED_OCTETS c) src (i * MIKPACK_FRAG_SIZE c)
       (frag_size c n r i)
       (mikmeta_serialize c (frag_meta c m n r i) (frag_offset c i) s)"

definition frag_calls :: "mikcfg \<Rightarrow> mikmeta_t \<Rightarrow> nat \<Rightarrow> nat \<Rightarrow> nat \<Rightarrow> call list" where
  "frag_calls c m n r i =
     [Call_mikmeta_serialize (frag_meta c m n r i) (frag_offset c i),
      Call_memcpy (frag_offset c i + MIKMETA_SERIALIZED_OCTETS c) (i * MIKPACK_FRAG_SIZE c)
        (frag_size c n r i)]"

definition metadata0 :: "nat \<Rightarrow> mikmeta_t" where
  "metadata0 mikid = \<lparr>id_meta = mikid, type_meta = MIK_DATA, part_meta = 0, size_meta = 0\<rparr>"

text \<open>The count of the documentation of \<^verbatim>\<open>fragments\<close>: the quotient, rounded up.\<close>

definition ceil_count :: "mikcfg \<Rightarrow> nat \<Rightarrow> nat" where
  "ceil_count c len =
     len div MIKPACK_FRAG_SIZE c + (if len mod MIKPACK_FRAG_SIZE c \<noteq> 0 then 1 else 0)"

subsection \<open>Concrete inputs\<close>

text \<open>
  A destination of which no octet has been written, before any call: the octets that a
  call of \<^verbatim>\<open>mikpack\<close> writes are then the domain of \<open>dest_octets\<close> afterwards. A handle in
  use and a payload, for the concrete runs.
\<close>

definition empty_store :: store where
  "empty_store = \<lparr>dest_octets = Map.empty, meta_calls = [], calls = []\<rparr>"

definition handle0 :: mikpack_t where
  "handle0 = \<lparr>ref_count = 3, data = None\<rparr>"

definition payload0 :: "nat \<Rightarrow> byte" where
  "payload0 i = word_of_nat (i + 65)"

text \<open>The store after a caller has allocated 17 octets and nothing else has happened.\<close>

definition allocated_store :: store where
  "allocated_store = empty_store\<lparr>calls := [Call_mik_try_alloc None 17]\<rparr>"

section \<open>Theorems\<close>

subsection \<open>The count of fragments\<close>

lemma unat_fragments:
  "unat (fst (fragments c len)) = ceil_count c len mod 2 ^ 16"
proof (cases "len mod MIKPACK_FRAG_SIZE c = 0")
  case True
  then show ?thesis
    by (simp add: fragments_def ceil_count_def Let_def unat_of_nat)
next
  case False
  have "unat ((word_of_nat (len div MIKPACK_FRAG_SIZE c) :: 16 word) + 1)
      = (len div MIKPACK_FRAG_SIZE c + 1) mod 2 ^ 16"
    by (simp add: unat_word_ariths unat_of_nat mod_simps)
  with False show ?thesis
    by (simp add: fragments_def ceil_count_def Let_def)
qed

lemma snd_fragments: "snd (fragments c len) = len mod MIKPACK_FRAG_SIZE c"
  by (simp add: fragments_def Let_def)

subsection \<open>The loop as a fold\<close>

text \<open>
  The part index stays below a 16-bit count, so its increment does not wrap, and the
  loop from part \<open>p\<close> on is the \<open>fold\<close> of \<open>put_frag\<close> over the indices from \<open>p\<close> to the
  count.
\<close>

lemma unat_part_Suc:
  fixes p frags :: "16 word"
  assumes "p < frags"
  shows "unat (p + 1) = Suc (unat p)"
proof -
  from assms have "unat p < unat frags" by (simp add: word_less_nat_alt)
  moreover have "unat frags < 2 ^ 16" using unsigned_less [of frags] by simp
  ultimately have "unat p + 1 < 2 ^ 16" by simp
  then show ?thesis by (simp add: unat_word_ariths)
qed

lemma write_octets_apply:
  "write_octets mem p xs x =
     (if p \<le> x \<and> x < p + length xs then Some (xs ! (x - p)) else mem x)"
proof (induction xs arbitrary: mem p)
  case Nil
  show ?case by auto
next
  case (Cons y ys)
  have "write_octets mem p (y # ys) x = write_octets (mem(p \<mapsto> y)) (Suc p) ys x"
    by simp
  also have "\<dots> = (if Suc p \<le> x \<and> x < Suc p + length ys then Some (ys ! (x - Suc p))
                    else (mem(p \<mapsto> y)) x)"
    by (rule Cons.IH)
  also have "\<dots> = (if p \<le> x \<and> x < p + length (y # ys) then Some ((y # ys) ! (x - p))
                    else mem x)"
  proof -
    consider "x < p" | "x = p" | "p < x" by linarith
    then show ?thesis
    proof cases
      case 3
      then have "x - p = Suc (x - Suc p)" by simp
      with 3 show ?thesis by simp
    qed simp_all
  qed
  finally show ?case .
qed

lemma last_part_iff:
  fixes p frags :: "16 word"
  assumes "p < frags"
  shows "uint p = uint frags - 1 \<longleftrightarrow> Suc (unat p) = unat frags"
proof -
  have "uint p = int (unat p)" "uint frags = int (unat frags)" by simp_all
  then show ?thesis by linarith
qed

lemma put_frag_part: "put_frag c src (m\<lparr>part_meta := q\<rparr>) n r = put_frag c src m n r"
  by (simp add: fun_eq_iff put_frag_def frag_meta_def)

lemma put_frag_size: "put_frag c src (m\<lparr>size_meta := q\<rparr>) n r = put_frag c src m n r"
  by (simp add: fun_eq_iff put_frag_def frag_meta_def)

lemma loop_body:
  assumes "part_meta m < frags"
  shows "memcpy (unat (word_of_nat (unat (part_meta m) * MIKPACK_REAL_FRAG_SIZE c) :: 32 word)
                  + MIKMETA_SERIALIZED_OCTETS c) src
           (unat (part_meta m) * MIKPACK_FRAG_SIZE c)
           (if uint (part_meta m) = uint frags - 1 \<and> r \<noteq> 0 then r else MIKPACK_FRAG_SIZE c)
           (mikmeta_serialize c
              (m\<lparr>size_meta :=
                   if uint (part_meta m) = uint frags - 1 \<and> r \<noteq> 0 then r
                   else MIKPACK_FRAG_SIZE c\<rparr>)
              (unat (word_of_nat (unat (part_meta m) * MIKPACK_REAL_FRAG_SIZE c) :: 32 word)) s)
         = put_frag c src m (unat frags) r (unat (part_meta m)) s"
  by (simp add: put_frag_def frag_meta_def frag_offset_def frag_size_def last_part_iff [OF assms])

lemma mikpack_loop_fold:
  "mikpack_loop c src frags r m s =
     fold (put_frag c src m (unat frags) r) [unat (part_meta m) ..< unat frags] s"
proof (induction c src frags r m s rule: mikpack_loop.induct)
  case (1 c src frags remainder metadata s)
  show ?case
  proof (cases "part_meta metadata < frags")
    case False
    then have "\<not> unat (part_meta metadata) < unat frags" by (simp add: word_less_nat_alt)
    with False show ?thesis by (simp add: mikpack_loop.simps [of c src frags remainder metadata s])
  next
    case True
    then have lt: "unat (part_meta metadata) < unat frags" by (simp add: word_less_nat_alt)
    note suc = unat_part_Suc [OF True]
    have upt: "[unat (part_meta metadata) ..< unat frags]
        = unat (part_meta metadata) # [Suc (unat (part_meta metadata)) ..< unat frags]"
      using lt by (simp add: upt_conv_Cons)
    have "mikpack_loop c src frags remainder metadata s
        = mikpack_loop c src frags remainder
            (metadata\<lparr>size_meta :=
                 if uint (part_meta metadata) = uint frags - 1 \<and> remainder \<noteq> 0 then remainder
                 else MIKPACK_FRAG_SIZE c,
               part_meta := part_meta metadata + 1\<rparr>)
            (put_frag c src metadata (unat frags) remainder (unat (part_meta metadata)) s)"
      using True loop_body [OF True, of c src remainder s]
      by (subst mikpack_loop.simps) (simp add: Let_def)
    also have "\<dots> = fold (put_frag c src metadata (unat frags) remainder)
                      [Suc (unat (part_meta metadata)) ..< unat frags]
                      (put_frag c src metadata (unat frags) remainder (unat (part_meta metadata)) s)"
      using "1.IH" [OF True refl refl refl refl] loop_body [OF True, of c src remainder s]
      by (simp add: suc put_frag_part put_frag_size)
    finally show ?thesis by (simp add: upt)
  qed
qed

subsection \<open>What one fragment and all fragments store\<close>

lemma write_octets_map:
  "write_octets mem p (map f [0 ..< n]) x =
     (if p \<le> x \<and> x < p + n then Some (f (x - p)) else mem x)"
proof (cases "p \<le> x \<and> x < p + n")
  case True
  then have "x - p < n" by linarith
  then have "map f [0 ..< n] ! (x - p) = f (x - p)" by simp
  with True show ?thesis by (simp add: write_octets_apply)
next
  case False
  then show ?thesis by (auto simp: write_octets_apply)
qed

lemma meta_calls_put_frag:
  "meta_calls (put_frag c src m n r i s) = meta_calls s @ [frag_meta c m n r i]"
  by (simp add: put_frag_def memcpy_def mikmeta_serialize_def)

lemma meta_calls_fold:
  "meta_calls (fold (put_frag c src m n r) js s) = meta_calls s @ map (frag_meta c m n r) js"
  by (induction js arbitrary: s) (simp_all add: meta_calls_put_frag)

lemma dest_octets_put_frag:
  "dest_octets (put_frag c src m n r i s) x =
     (if frag_offset c i + MIKMETA_SERIALIZED_OCTETS c \<le> x
         \<and> x < frag_offset c i + MIKMETA_SERIALIZED_OCTETS c + frag_size c n r i
      then Some (Oct (src (i * MIKPACK_FRAG_SIZE c
                           + (x - (frag_offset c i + MIKMETA_SERIALIZED_OCTETS c)))))
      else if frag_offset c i \<le> x \<and> x < frag_offset c i + MIKMETA_SERIALIZED_OCTETS c
      then Some (Hdr (frag_meta c m n r i) (x - frag_offset c i))
      else dest_octets s x)"
  by (simp add: put_frag_def memcpy_def mikmeta_serialize_def write_octets_map)

lemma dom_put_frag:
  "dom (dest_octets (put_frag c src m n r i s)) =
     dom (dest_octets s)
     \<union> {frag_offset c i ..< frag_offset c i + MIKMETA_SERIALIZED_OCTETS c + frag_size c n r i}"
  by (auto simp: dom_def dest_octets_put_frag)

lemma frag_offset_exact:
  assumes "MIKPACK_REAL_FRAG_SIZE c < 2 ^ 16" and "i < 2 ^ 16"
  shows "frag_offset c i = i * MIKPACK_REAL_FRAG_SIZE c"
proof -
  have "i * MIKPACK_REAL_FRAG_SIZE c < 2 ^ 16 * 2 ^ 16"
    using assms by (intro mult_strict_mono) simp_all
  then have "i * MIKPACK_REAL_FRAG_SIZE c < 2 ^ LENGTH(32)" by simp
  then show ?thesis unfolding frag_offset_def unat_of_nat by (rule mod_less)
qed

lemma frag_size_le:
  assumes "r \<le> MIKPACK_FRAG_SIZE c"
  shows "frag_size c n r i \<le> MIKPACK_FRAG_SIZE c"
  using assms by (simp add: frag_size_def)

lemma fold_upt_Suc: "fold f [0 ..< Suc k] s = f k (fold f [0 ..< k] s)"
  by simp

lemma dest_octets_fold_inside:
  assumes ok: "cfg_ok c" and r: "r \<le> MIKPACK_FRAG_SIZE c" and k: "k \<le> 2 ^ 16"
    and i: "i < k" and ofs: "ofs < MIKMETA_SERIALIZED_OCTETS c + frag_size c n r i"
  shows "dest_octets (fold (put_frag c src m n r) [0 ..< k] s) (i * MIKPACK_REAL_FRAG_SIZE c + ofs) =
           Some (if ofs < MIKMETA_SERIALIZED_OCTETS c then Hdr (frag_meta c m n r i) ofs
                 else Oct (src (i * MIKPACK_FRAG_SIZE c + (ofs - MIKMETA_SERIALIZED_OCTETS c))))"
  using k i
proof (induction k)
  case 0
  then show ?case by simp
next
  case (Suc k)
  let ?R = "MIKPACK_REAL_FRAG_SIZE c" and ?M = "MIKMETA_SERIALIZED_OCTETS c"
  from ok have R: "?R = MIKPACK_FRAG_SIZE c + ?M" and R16: "?R < 2 ^ 16"
    by (simp_all add: cfg_ok_def)
  from Suc.prems have k16: "k < 2 ^ 16" by simp
  have off: "frag_offset c k = k * ?R" by (rule frag_offset_exact [OF R16 k16])
  have in_stride: "ofs < ?R" using ofs frag_size_le [OF r, of n i] R by linarith
  show ?case
  proof (cases "i = k")
    case True
    with ofs show ?thesis
      by (simp only: fold_upt_Suc dest_octets_put_frag off) auto
  next
    case False
    with Suc.prems have ik: "i < k" by simp
    then have "Suc i * ?R \<le> k * ?R" by (intro mult_le_mono1) simp
    with in_stride have below: "i * ?R + ofs < k * ?R" by simp
    from Suc.IH [OF _ ik] k16
    have IH: "dest_octets (fold (put_frag c src m n r) [0 ..< k] s) (i * ?R + ofs) =
           Some (if ofs < ?M then Hdr (frag_meta c m n r i) ofs
                 else Oct (src (i * MIKPACK_FRAG_SIZE c + (ofs - ?M))))"
      by simp
    from below show ?thesis
      by (simp only: fold_upt_Suc dest_octets_put_frag off IH) simp
  qed
qed

lemma dom_fold_put_frag:
  "dom (dest_octets (fold (put_frag c src m n r) js s)) =
     dom (dest_octets s)
     \<union> (\<Union>i\<in>set js. {frag_offset c i ..<
                        frag_offset c i + MIKMETA_SERIALIZED_OCTETS c + frag_size c n r i})"
  by (induction js arbitrary: s) (auto simp: dom_put_frag)

lemma full_regions:
  assumes ok: "cfg_ok c" and n: "n \<le> 2 ^ 16" and k: "k < n"
  shows "(\<Union>i\<in>{0 ..< k}. {frag_offset c i ..<
            frag_offset c i + MIKMETA_SERIALIZED_OCTETS c + frag_size c n r i})
         = {0 ..< k * MIKPACK_REAL_FRAG_SIZE c}"
  using k
proof (induction k)
  case 0
  show ?case by simp
next
  case (Suc k)
  let ?R = "MIKPACK_REAL_FRAG_SIZE c"
  from ok have R: "?R = MIKPACK_FRAG_SIZE c + MIKMETA_SERIALIZED_OCTETS c" and R16: "?R < 2 ^ 16"
    by (simp_all add: cfg_ok_def)
  from Suc.prems n have k16: "k < 2 ^ 16" by simp
  have off: "frag_offset c k = k * ?R" by (rule frag_offset_exact [OF R16 k16])
  from Suc.prems have sz: "frag_size c n r k = MIKPACK_FRAG_SIZE c" by (simp add: frag_size_def)
  have reg: "{frag_offset c k ..< frag_offset c k + MIKMETA_SERIALIZED_OCTETS c + frag_size c n r k}
      = {k * ?R ..< Suc k * ?R}"
    by (simp add: off sz R ac_simps)
  from Suc.prems have IH: "(\<Union>i\<in>{0 ..< k}. {frag_offset c i ..<
            frag_offset c i + MIKMETA_SERIALIZED_OCTETS c + frag_size c n r i}) = {0 ..< k * ?R}"
    using Suc.IH by simp
  have "{0 ..< k * ?R} \<union> {k * ?R ..< Suc k * ?R} = {0 ..< Suc k * ?R}"
    by (rule ivl_disj_un) simp_all
  then show ?case
    by (simp only: atLeast0_lessThan_Suc UN_insert IH reg Un_commute)
qed

lemma all_regions:
  assumes ok: "cfg_ok c" and n: "n < 2 ^ 16" and pos: "0 < n"
  shows "(\<Union>i\<in>{0 ..< n}. {frag_offset c i ..<
            frag_offset c i + MIKMETA_SERIALIZED_OCTETS c + frag_size c n r i})
         = {0 ..< (n - 1) * MIKPACK_REAL_FRAG_SIZE c + MIKMETA_SERIALIZED_OCTETS c
                    + frag_size c n r (n - 1)}"
proof -
  let ?R = "MIKPACK_REAL_FRAG_SIZE c"
  from ok have R16: "?R < 2 ^ 16" by (simp add: cfg_ok_def)
  from pos obtain k where nk: "n = Suc k" by (cases n) simp_all
  with n have k16: "k < 2 ^ 16" by simp
  have off: "frag_offset c k = k * ?R" by (rule frag_offset_exact [OF R16 k16])
  have full: "(\<Union>i\<in>{0 ..< k}. {frag_offset c i ..<
            frag_offset c i + MIKMETA_SERIALIZED_OCTETS c + frag_size c n r i}) = {0 ..< k * ?R}"
    using n nk by (intro full_regions [OF ok]) simp_all
  have "{0 ..< k * ?R} \<union> {k * ?R ..< k * ?R + MIKMETA_SERIALIZED_OCTETS c + frag_size c n r k}
      = {0 ..< k * ?R + MIKMETA_SERIALIZED_OCTETS c + frag_size c n r k}"
    by (rule ivl_disj_un) simp_all
  then show ?thesis
    unfolding nk
    by (simp only: atLeast0_lessThan_Suc UN_insert full [unfolded nk] off Un_commute
          diff_Suc_1)
qed

text \<open>A call that passes the guard, with the loop in closed form.\<close>

lemma dest_octets_calls: "dest_octets (s\<lparr>calls := cs\<rparr>) = dest_octets s"
  by simp

lemma meta_calls_calls: "meta_calls (s\<lparr>calls := cs\<rparr>) = meta_calls s"
  by simp

lemma mikpack_success:
  assumes "0 < len"
  shows "mikpack c mikid (Some h) (Some src) len (Some d) s =
     (MIKERR_NONE, Some (h\<lparr>ref_count := 0, data := Some d\<rparr>),
      fold (put_frag c src (metadata0 mikid) (unat (fst (fragments c len)))
              (len mod MIKPACK_FRAG_SIZE c))
        [0 ..< unat (fst (fragments c len))] (s\<lparr>calls := calls s @ [Call_mikid]\<rparr>))"
  using assms
  by (simp add: mikpack_def mikpack_loop_fold case_prod_unfold snd_fragments metadata0_def Let_def)

lemma ceil_count_pos:
  assumes "0 < MIKPACK_FRAG_SIZE c" and "0 < len"
  shows "0 < ceil_count c len"
proof (cases "len mod MIKPACK_FRAG_SIZE c = 0")
  case True
  then have "MIKPACK_FRAG_SIZE c dvd len" by (simp add: dvd_eq_mod_eq_0)
  with assms have "MIKPACK_FRAG_SIZE c \<le> len" by (simp add: dvd_imp_le)
  with assms have "0 < len div MIKPACK_FRAG_SIZE c" by (simp add: div_greater_zero_iff)
  with True show ?thesis by (simp add: ceil_count_def)
next
  case False
  then show ?thesis by (simp add: ceil_count_def)
qed

lemma written_size:
  assumes ok: "cfg_ok c" and len: "0 < len"
  shows "(ceil_count c len - 1) * MIKPACK_REAL_FRAG_SIZE c + MIKMETA_SERIALIZED_OCTETS c
           + frag_size c (ceil_count c len) (len mod MIKPACK_FRAG_SIZE c) (ceil_count c len - 1)
         = len + ceil_count c len * MIKFRAG_HEADER_SIZE c"
proof -
  let ?F = "MIKPACK_FRAG_SIZE c" and ?H = "MIKFRAG_HEADER_SIZE c"
  from ok have F: "0 < ?F" and M: "MIKMETA_SERIALIZED_OCTETS c = ?H"
    and R: "MIKPACK_REAL_FRAG_SIZE c = ?F + ?H"
    by (simp_all add: cfg_ok_def)
  have split: "len = len div ?F * ?F + len mod ?F" by simp
  show ?thesis
  proof (cases "len mod ?F = 0")
    case True
    from ceil_count_pos [OF F len] True obtain q where q: "len div ?F = Suc q"
      by (cases "len div ?F") (simp_all add: ceil_count_def)
    have "len = Suc q * ?F" using split True q by simp
    then show ?thesis
      using True q by (simp add: ceil_count_def frag_size_def M R algebra_simps)
  next
    case False
    have "len = len div ?F * ?F + len mod ?F" by simp
    then show ?thesis
      using False
      by (simp add: ceil_count_def frag_size_def M R algebra_simps)
  qed
qed

lemma fragments_no_wrap:
  assumes "ceil_count c len < 2 ^ 16"
  shows "unat (fst (fragments c len)) = ceil_count c len"
  using assms by (simp add: unat_fragments)

lemma dom_mikpack:
  assumes ok: "cfg_ok c" and len: "0 < len" and nw: "ceil_count c len < 2 ^ 16"
  shows "dom (dest_octets (snd (snd (mikpack c mikid (Some h) (Some src) len (Some d) s))))
         = dom (dest_octets s) \<union> {0 ..< len + ceil_count c len * MIKFRAG_HEADER_SIZE c}"
proof -
  let ?n = "ceil_count c len"
  from ok have F: "0 < MIKPACK_FRAG_SIZE c" by (simp add: cfg_ok_def)
  have n: "unat (fst (fragments c len)) = ?n" by (rule fragments_no_wrap [OF nw])
  have pos: "0 < ?n" by (rule ceil_count_pos [OF F len])
  show ?thesis
    by (simp only: mikpack_success [OF len] snd_conv n dom_fold_put_frag set_upt
          all_regions [OF ok nw pos] written_size [OF ok len] dest_octets_calls)
qed

lemma mem_est_closed:
  assumes nw: "ceil_count c len < 2 ^ 16" and len: "0 < len"
  shows "mikpack_mem_est c len
         = ceil_count c len * MIKPACK_FRAG_SIZE c
           + (if len mod MIKPACK_FRAG_SIZE c \<noteq> 0
              then len mod MIKPACK_FRAG_SIZE c + MIKFRAG_HEADER_SIZE c else 0)"
  using len
  by (simp add: mikpack_mem_est_def case_prod_unfold Let_def snd_fragments
        fragment_data_size_def semi_fragment_data_size_def fragments_no_wrap [OF nw])

subsection \<open>The estimator against the packer\<close>

text \<open>
  Claim C1, which the code does not meet. For constants related as the headers relate
  them and a payload whose fragments the 16-bit count can hold, a successful call of
  \<^verbatim>\<open>mikpack\<close> on an untouched destination writes \<open>len\<close> payload octets and one header
  for each fragment, \<open>len + n * MIKFRAG_HEADER_SIZE\<close> octets for \<open>n\<close> fragments, while
  \<^verbatim>\<open>mikpack_mem_est\<close> returns \<open>n * MIKPACK_FRAG_SIZE\<close>, plus the remainder and one
  header when there is a remainder. For a payload of whole fragments and a header that
  is not empty, the estimate is below the number of octets written.
\<close>

theorem mem_est_differs_from_written:
  assumes "cfg_ok c" and "0 < len" and "ceil_count c len < 2 ^ 16"
  shows "card (dom (dest_octets (snd (snd
            (mikpack c mikid (Some h) (Some src) len (Some d) empty_store)))))
           = len + ceil_count c len * MIKFRAG_HEADER_SIZE c
       \<and> mikpack_mem_est c len
           = ceil_count c len * MIKPACK_FRAG_SIZE c
             + (if len mod MIKPACK_FRAG_SIZE c \<noteq> 0
                then len mod MIKPACK_FRAG_SIZE c + MIKFRAG_HEADER_SIZE c else 0)
       \<and> (len mod MIKPACK_FRAG_SIZE c = 0 \<and> 0 < MIKFRAG_HEADER_SIZE c \<longrightarrow>
            mikpack_mem_est c len
            < card (dom (dest_octets (snd (snd
                (mikpack c mikid (Some h) (Some src) len (Some d) empty_store))))))"
proof -
  let ?F = "MIKPACK_FRAG_SIZE c" and ?H = "MIKFRAG_HEADER_SIZE c"
  let ?w = "card (dom (dest_octets (snd (snd
            (mikpack c mikid (Some h) (Some src) len (Some d) empty_store)))))"
  from assms(1) have F: "0 < ?F" by (simp add: cfg_ok_def)
  have w: "?w = len + ceil_count c len * ?H"
    by (simp add: dom_mikpack [OF assms] empty_store_def)
  have e: "mikpack_mem_est c len
           = ceil_count c len * ?F + (if len mod ?F \<noteq> 0 then len mod ?F + ?H else 0)"
    by (rule mem_est_closed [OF assms(3) assms(2)])
  have lt: "len mod ?F = 0 \<and> 0 < ?H \<longrightarrow> mikpack_mem_est c len < ?w"
  proof (intro impI, elim conjE)
    assume z: "len mod ?F = 0" and H: "0 < ?H"
    from z have "len = ceil_count c len * ?F" by (auto simp: ceil_count_def)
    moreover have "0 < ceil_count c len * ?H"
      using ceil_count_pos [OF F assms(2)] H by simp
    ultimately show "mikpack_mem_est c len < ?w" using z by (simp add: w e)
  qed
  show ?thesis by (intro conjI w e lt)
qed

text \<open>
  With two payload octets in a fragment and a header of six: nine octets are packed into
  39 and estimated at 17, eight octets are packed into 32 and estimated at 8.
\<close>

theorem mem_est_differs_from_written_witness:
  "cfg_ok cfg2 \<and> (0::nat) < 9 \<and> ceil_count cfg2 9 < 2 ^ 16
   \<and> card (dom (dest_octets (snd (snd
        (mikpack cfg2 7 (Some handle0) (Some payload0) 9 (Some 4096) empty_store))))) = 39
   \<and> mikpack_mem_est cfg2 9 = 17
   \<and> cfg_ok cfg2 \<and> (0::nat) < 8 \<and> ceil_count cfg2 8 < 2 ^ 16 \<and> 8 mod MIKPACK_FRAG_SIZE cfg2 = 0
   \<and> card (dom (dest_octets (snd (snd
        (mikpack cfg2 7 (Some handle0) (Some payload0) 8 (Some 4096) empty_store))))) = 32
   \<and> mikpack_mem_est cfg2 8 = 8"
proof -
  have ok: "cfg_ok cfg2" by (simp add: cfg_ok_def cfg2_def)
  have c9: "ceil_count cfg2 9 = 5" and c8: "ceil_count cfg2 8 = 4"
    by (simp_all add: ceil_count_def cfg2_def)
  have F: "MIKPACK_FRAG_SIZE cfg2 = 2" and H: "MIKFRAG_HEADER_SIZE cfg2 = 6"
    by (simp_all add: cfg2_def)
  from mem_est_differs_from_written [OF ok, of 9 7 handle0 payload0 4096]
       mem_est_differs_from_written [OF ok, of 8 7 handle0 payload0 4096]
  show ?thesis by (simp add: ok c9 c8 F H)
qed

lemma upt_5: "[0 ..< 5] = [0, 1, 2, 3, 4::nat]"
  by (simp add: upt_rec)

lemma meta_calls_mikpack:
  assumes "0 < len"
  shows "meta_calls (snd (snd (mikpack c mikid (Some h) (Some src) len (Some d) s)))
         = meta_calls s
           @ map (frag_meta c (metadata0 mikid) (unat (fst (fragments c len)))
                    (len mod MIKPACK_FRAG_SIZE c))
               [0 ..< unat (fst (fragments c len))]"
  by (simp only: mikpack_success [OF assms] snd_conv meta_calls_fold meta_calls_calls)

text \<open>
  Claim C2, which the code meets in its first half only. With two payload octets in a
  fragment, whatever the size of the header, a payload of nine octets is packed into five
  fragments: the headers passed to the serializer carry the sizes \<open>2, 2, 2, 2, 1\<close> and
  the part indices \<open>0\<close> to \<open>4\<close>, and the octets written are the nine of the payload
  and five headers. \<^verbatim>\<open>mikpack_mem_est\<close> returns eleven octets and one header, which is
  never that number.
\<close>

theorem scenario_nine_by_two:
  assumes "cfg_ok c" and "MIKPACK_FRAG_SIZE c = 2"
  shows "map size_meta (meta_calls (snd (snd
            (mikpack c mikid (Some h) (Some src) 9 (Some d) empty_store)))) = [2, 2, 2, 2, 1]
       \<and> map part_meta (meta_calls (snd (snd
            (mikpack c mikid (Some h) (Some src) 9 (Some d) empty_store)))) = [0, 1, 2, 3, 4]
       \<and> card (dom (dest_octets (snd (snd
            (mikpack c mikid (Some h) (Some src) 9 (Some d) empty_store)))))
           = 9 + 5 * MIKFRAG_HEADER_SIZE c
       \<and> mikpack_mem_est c 9 = 11 + MIKFRAG_HEADER_SIZE c
       \<and> mikpack_mem_est c 9 \<noteq> card (dom (dest_octets (snd (snd
            (mikpack c mikid (Some h) (Some src) 9 (Some d) empty_store)))))"
proof -
  let ?s = "snd (snd (mikpack c mikid (Some h) (Some src) 9 (Some d) empty_store))"
  have cc: "ceil_count c 9 = 5" using assms(2) by (simp add: ceil_count_def)
  then have nw: "ceil_count c 9 < 2 ^ 16" by simp
  have n: "unat (fst (fragments c 9)) = 5" using fragments_no_wrap [OF nw] cc by simp
  have r: "9 mod MIKPACK_FRAG_SIZE c = 1" using assms(2) by simp
  have calls: "meta_calls ?s = map (frag_meta c (metadata0 mikid) 5 1) [0, 1, 2, 3, 4]"
    using meta_calls_mikpack [of 9 c mikid h src d empty_store]
    by (simp add: n r upt_5 empty_store_def)
  have sizes: "map size_meta (meta_calls ?s) = [2, 2, 2, 2, 1]"
    by (simp add: calls frag_meta_def frag_size_def assms(2))
  have parts: "map part_meta (meta_calls ?s) = [0, 1, 2, 3, 4]"
    by (simp add: calls frag_meta_def)
  have w: "card (dom (dest_octets ?s)) = 9 + 5 * MIKFRAG_HEADER_SIZE c"
    using dom_mikpack [OF assms(1) _ nw, of mikid h src d empty_store]
    by (simp add: cc empty_store_def)
  have e: "mikpack_mem_est c 9 = 11 + MIKFRAG_HEADER_SIZE c"
    using mem_est_closed [OF nw] by (simp add: cc r assms(2))
  have ne: "mikpack_mem_est c 9 \<noteq> card (dom (dest_octets ?s))"
    unfolding w e by presburger
  show ?thesis by (intro conjI sizes parts w e ne)
qed

text \<open>
  With a header of six octets: 39 octets are written, 17 are estimated.
\<close>

theorem scenario_nine_by_two_witness:
  "cfg_ok cfg2 \<and> MIKPACK_FRAG_SIZE cfg2 = 2
   \<and> map size_meta (meta_calls (snd (snd
        (mikpack cfg2 7 (Some handle0) (Some payload0) 9 (Some 4096) empty_store))))
       = [2, 2, 2, 2, 1]
   \<and> map part_meta (meta_calls (snd (snd
        (mikpack cfg2 7 (Some handle0) (Some payload0) 9 (Some 4096) empty_store))))
       = [0, 1, 2, 3, 4]
   \<and> card (dom (dest_octets (snd (snd
        (mikpack cfg2 7 (Some handle0) (Some payload0) 9 (Some 4096) empty_store))))) = 39
   \<and> mikpack_mem_est cfg2 9 = 17"
proof -
  have ok: "cfg_ok cfg2" by (simp add: cfg_ok_def cfg2_def)
  have F: "MIKPACK_FRAG_SIZE cfg2 = 2" and H: "MIKFRAG_HEADER_SIZE cfg2 = 6"
    by (simp_all add: cfg2_def)
  from scenario_nine_by_two [OF ok F, of 7 handle0 payload0 4096]
  show ?thesis by (simp add: ok F H)
qed

subsection \<open>The count of fragments, again\<close>

text \<open>
  Claim C3 fails as it is stated: for an empty payload \<^verbatim>\<open>fragments\<close> returns \<open>0\<close> and not
  \<open>1\<close>, and for \<open>65536\<close> whole fragments it returns \<open>0\<close> and not \<open>65536\<close>.
\<close>

theorem fragments_count_counterexample:
  "unat (fst (fragments cfg2 0)) \<noteq> 1 \<and> unat (fst (fragments cfg2 (65536 * 2))) \<noteq> 65536"
  by (simp add: unat_fragments ceil_count_def cfg2_def)

text \<open>
  Claim C3, amended. The count that \<^verbatim>\<open>fragments\<close> returns is \<open>0\<close> for an empty payload,
  \<open>k\<close> for a payload of \<open>k\<close> whole fragments with \<open>k < 2^16\<close>, and the quotient plus
  one for a payload with a remainder, when that is below \<open>2^16\<close>.
\<close>

theorem fragments_count:
  assumes "0 < MIKPACK_FRAG_SIZE c"
  shows "(len = 0 \<longrightarrow> unat (fst (fragments c len)) = 0)
       \<and> (\<forall>k < 2 ^ 16. len = k * MIKPACK_FRAG_SIZE c \<longrightarrow> unat (fst (fragments c len)) = k)
       \<and> (len mod MIKPACK_FRAG_SIZE c \<noteq> 0 \<and> len div MIKPACK_FRAG_SIZE c + 1 < 2 ^ 16 \<longrightarrow>
            unat (fst (fragments c len)) = len div MIKPACK_FRAG_SIZE c + 1)"
proof (intro conjI allI impI)
  assume "len = 0"
  then show "unat (fst (fragments c len)) = 0"
    by (simp add: unat_fragments ceil_count_def)
next
  fix k :: nat
  assume "k < 2 ^ 16" and "len = k * MIKPACK_FRAG_SIZE c"
  with assms show "unat (fst (fragments c len)) = k"
    by (simp add: unat_fragments ceil_count_def)
next
  assume "len mod MIKPACK_FRAG_SIZE c \<noteq> 0 \<and> len div MIKPACK_FRAG_SIZE c + 1 < 2 ^ 16"
  then show "unat (fst (fragments c len)) = len div MIKPACK_FRAG_SIZE c + 1"
    by (simp add: unat_fragments ceil_count_def)
qed

text \<open>
  An empty payload, four whole fragments, and four fragments and a remainder.
\<close>

theorem fragments_count_witness:
  "0 < MIKPACK_FRAG_SIZE cfg2
   \<and> unat (fst (fragments cfg2 0)) = 0
   \<and> (4::nat) < 2 ^ 16 \<and> 8 = 4 * MIKPACK_FRAG_SIZE cfg2 \<and> unat (fst (fragments cfg2 8)) = 4
   \<and> 9 mod MIKPACK_FRAG_SIZE cfg2 \<noteq> 0 \<and> 9 div MIKPACK_FRAG_SIZE cfg2 + 1 < 2 ^ 16
   \<and> unat (fst (fragments cfg2 9)) = 5"
proof -
  have F: "MIKPACK_FRAG_SIZE cfg2 = 2" by (simp add: cfg2_def)
  then have pos: "0 < MIKPACK_FRAG_SIZE cfg2" by simp
  have a: "unat (fst (fragments cfg2 0)) = 0"
    using fragments_count [OF pos, of 0] by simp
  have b: "unat (fst (fragments cfg2 8)) = 4"
    using fragments_count [OF pos, of 8] by (simp add: F)
  have c: "unat (fst (fragments cfg2 9)) = 5"
    using fragments_count [OF pos, of 9] by (simp add: F)
  show ?thesis by (simp add: F a b c)
qed

lemma ceil_div:
  fixes q r F :: nat
  assumes "r < F"
  shows "(q * F + r + F - 1) div F = q + (if r \<noteq> 0 then 1 else 0)"
proof (rule div_nat_eqI)
  show "F * (q + (if r \<noteq> 0 then 1 else 0)) \<le> q * F + r + F - 1"
    using assms by (auto simp: algebra_simps)
  show "q * F + r + F - 1 < F * Suc (q + (if r \<noteq> 0 then 1 else 0))"
    using assms by (auto simp: algebra_simps)
qed

lemma ceil_count_ceiling:
  assumes "0 < MIKPACK_FRAG_SIZE c"
  shows "ceil_count c len = (len + MIKPACK_FRAG_SIZE c - 1) div MIKPACK_FRAG_SIZE c"
proof -
  let ?F = "MIKPACK_FRAG_SIZE c"
  have "len mod ?F < ?F" using assms by simp
  from ceil_div [OF this, of "len div ?F"]
  show ?thesis by (simp add: ceil_count_def)
qed

text \<open>
  Claim C10. The count is the ceiling of \<open>len / MIKPACK_FRAG_SIZE\<close> reduced modulo
  \<open>2^16\<close>, and it is the count with which \<^verbatim>\<open>mikpack_mem_est\<close> multiplies. A payload
  of at least \<open>2^16 * MIKPACK_FRAG_SIZE\<close> octets is not rejected: the count is below
  the ceiling, \<^verbatim>\<open>mikpack\<close> returns \<open>MIKERR_NONE\<close> and serializes as many headers as the
  wrapped count says.
\<close>

theorem fragments_wraps:
  assumes "0 < MIKPACK_FRAG_SIZE c"
  shows "unat (fst (fragments c len))
           = ((len + MIKPACK_FRAG_SIZE c - 1) div MIKPACK_FRAG_SIZE c) mod 2 ^ 16
       \<and> mikpack_mem_est c len
           = unat (fst (fragments c len)) * MIKPACK_FRAG_SIZE c
             + (if len mod MIKPACK_FRAG_SIZE c \<noteq> 0 \<or> len = 0
                then len mod MIKPACK_FRAG_SIZE c + MIKFRAG_HEADER_SIZE c else 0)
       \<and> (2 ^ 16 * MIKPACK_FRAG_SIZE c \<le> len \<longrightarrow>
            unat (fst (fragments c len))
              < (len + MIKPACK_FRAG_SIZE c - 1) div MIKPACK_FRAG_SIZE c
            \<and> fst (mikpack c mikid (Some h) (Some src) len (Some d) s) = MIKERR_NONE
            \<and> length (meta_calls (snd (snd
                 (mikpack c mikid (Some h) (Some src) len (Some d) s))))
               = length (meta_calls s) + unat (fst (fragments c len)))"
proof (intro conjI impI)
  let ?F = "MIKPACK_FRAG_SIZE c"
  show eq: "unat (fst (fragments c len)) = ((len + ?F - 1) div ?F) mod 2 ^ 16"
    by (simp only: unat_fragments ceil_count_ceiling [OF assms])
  show "mikpack_mem_est c len
           = unat (fst (fragments c len)) * ?F
             + (if len mod ?F \<noteq> 0 \<or> len = 0 then len mod ?F + MIKFRAG_HEADER_SIZE c else 0)"
    by (simp add: mikpack_mem_est_def case_prod_unfold Let_def snd_fragments
          fragment_data_size_def semi_fragment_data_size_def)
  assume big: "2 ^ 16 * ?F \<le> len"
  have "2 ^ 16 \<le> len div ?F"
    using big assms by (simp add: less_eq_div_iff_mult_less_eq)
  also have "\<dots> \<le> ceil_count c len" by (simp add: ceil_count_def)
  finally have "2 ^ 16 \<le> (len + ?F - 1) div ?F"
    by (simp only: ceil_count_ceiling [OF assms])
  moreover have "((len + ?F - 1) div ?F) mod 2 ^ 16 < (2 ^ 16 :: nat)" by simp
  ultimately show "unat (fst (fragments c len)) < (len + ?F - 1) div ?F"
    unfolding eq by linarith
  have "0 < 2 ^ 16 * ?F" using assms by simp
  with big have len: "0 < len" by linarith
  then show "fst (mikpack c mikid (Some h) (Some src) len (Some d) s) = MIKERR_NONE"
    by (simp add: mikpack_success)
  show "length (meta_calls (snd (snd (mikpack c mikid (Some h) (Some src) len (Some d) s))))
        = length (meta_calls s) + unat (fst (fragments c len))"
    by (simp add: meta_calls_mikpack [OF len])
qed

text \<open>
  Nine octets give five fragments; \<open>131075\<close> octets, which need \<open>65538\<close> fragments of
  two octets, give two.
\<close>

theorem fragments_wraps_witness:
  "0 < MIKPACK_FRAG_SIZE cfg2
   \<and> unat (fst (fragments cfg2 9)) = 5
   \<and> 2 ^ 16 * MIKPACK_FRAG_SIZE cfg2 \<le> (131075::nat)
   \<and> unat (fst (fragments cfg2 131075)) = 2
   \<and> mikpack_mem_est cfg2 131075 = 11
   \<and> fst (mikpack cfg2 7 (Some handle0) (Some payload0) 131075 (Some 4096) empty_store)
       = MIKERR_NONE
   \<and> length (meta_calls (snd (snd
        (mikpack cfg2 7 (Some handle0) (Some payload0) 131075 (Some 4096) empty_store)))) = 2"
proof -
  have F: "MIKPACK_FRAG_SIZE cfg2 = 2" and H: "MIKFRAG_HEADER_SIZE cfg2 = 6"
    by (simp_all add: cfg2_def)
  then have pos: "0 < MIKPACK_FRAG_SIZE cfg2" by simp
  from fragments_wraps [OF pos, of 9 7 handle0 payload0 4096 empty_store]
       fragments_wraps [OF pos, of 131075 7 handle0 payload0 4096 empty_store]
  show ?thesis by (simp add: F H empty_store_def)
qed

text \<open>
  Claim C6. For an empty payload the estimate is the size of one semi-fragment without
  payload, which is the size of the header.
\<close>

theorem mem_est_zero:
  "mikpack_mem_est c 0 = semi_fragment_data_size c 0
   \<and> semi_fragment_data_size c 0 = MIKFRAG_HEADER_SIZE c"
  by (simp add: mikpack_mem_est_def fragments_def fragment_data_size_def
        semi_fragment_data_size_def)

text \<open>
  With a header of six octets, the branch \<open>len = 0\<close> of the estimator gives six.
\<close>

theorem mem_est_zero_witness:
  "mikpack_mem_est cfg2 0 = 6 \<and> semi_fragment_data_size cfg2 0 = 6"
  using mem_est_zero [of cfg2] by (simp add: cfg2_def)

subsection \<open>Arguments, handle and result of the packer\<close>

text \<open>
  Claim C4. \<^verbatim>\<open>mikpack\<close> returns \<open>MIKERR_BAD_PTR\<close> exactly when \<^verbatim>\<open>pack\<close>, \<^verbatim>\<open>src\<close> or
  \<^verbatim>\<open>dest\<close> is null or \<^verbatim>\<open>len\<close> is zero, and then the handle and the store are those
  of before the call.
\<close>

theorem mikpack_bad_argument:
  "(fst (mikpack c mikid pack src len dest s) = MIKERR_BAD_PTR
      \<longleftrightarrow> pack = None \<or> src = None \<or> dest = None \<or> len = 0)
   \<and> (pack = None \<or> src = None \<or> dest = None \<or> len = 0
      \<longrightarrow> mikpack c mikid pack src len dest s = (MIKERR_BAD_PTR, pack, s))"
  by (auto simp: mikpack_def Let_def case_prod_unfold)

text \<open>
  One run for each of the four bad arguments, and one with none.
\<close>

theorem mikpack_bad_argument_witness:
  "mikpack cfg2 7 None (Some payload0) 9 (Some 4096) empty_store
     = (MIKERR_BAD_PTR, None, empty_store)
   \<and> mikpack cfg2 7 (Some handle0) None 9 (Some 4096) empty_store
     = (MIKERR_BAD_PTR, Some handle0, empty_store)
   \<and> mikpack cfg2 7 (Some handle0) (Some payload0) 9 None empty_store
     = (MIKERR_BAD_PTR, Some handle0, empty_store)
   \<and> mikpack cfg2 7 (Some handle0) (Some payload0) 0 (Some 4096) empty_store
     = (MIKERR_BAD_PTR, Some handle0, empty_store)
   \<and> fst (mikpack cfg2 7 (Some handle0) (Some payload0) 9 (Some 4096) empty_store)
     \<noteq> MIKERR_BAD_PTR"
  using mikpack_bad_argument [of cfg2 7 None "Some payload0" 9 "Some 4096" empty_store]
    mikpack_bad_argument [of cfg2 7 "Some handle0" None 9 "Some 4096" empty_store]
    mikpack_bad_argument [of cfg2 7 "Some handle0" "Some payload0" 9 None empty_store]
    mikpack_bad_argument [of cfg2 7 "Some handle0" "Some payload0" 0 "Some 4096" empty_store]
    mikpack_bad_argument [of cfg2 7 "Some handle0" "Some payload0" 9 "Some 4096" empty_store]
  by simp

text \<open>
  Claim C7. After a successful call the reference count of the handle is zero and its
  data pointer is \<^verbatim>\<open>dest\<close>.
\<close>

theorem mikpack_handle:
  assumes "0 < len"
  shows "fst (snd (mikpack c mikid (Some h) (Some src) len (Some d) s))
         = Some (h\<lparr>ref_count := 0, data := Some d\<rparr>)"
  by (simp add: mikpack_success [OF assms])

text \<open>
  A handle with three references and no buffer, packed to the address \<open>4096\<close>.
\<close>

theorem mikpack_handle_witness:
  "(0::nat) < 9
   \<and> fst (snd (mikpack cfg2 7 (Some handle0) (Some payload0) 9 (Some 4096) empty_store))
       = Some \<lparr>ref_count = 0, data = Some 4096\<rparr>"
  using mikpack_handle [of 9 cfg2 7 handle0 payload0 4096 empty_store]
  by (simp add: handle0_def)

lemma frag_meta_metadata0:
  "frag_meta c (metadata0 mikid) n r i =
     \<lparr>id_meta = mikid, type_meta = MIK_DATA, part_meta = word_of_nat i,
      size_meta = frag_size c n r i\<rparr>"
  by (simp add: frag_meta_def metadata0_def)

lemma calls_put_frag:
  "calls (put_frag c src m n r i s) = calls s @ frag_calls c m n r i"
  by (simp add: put_frag_def memcpy_def mikmeta_serialize_def frag_calls_def)

lemma calls_fold:
  "calls (fold (put_frag c src m n r) js s)
   = calls s @ concat (map (frag_calls c m n r) js)"
  by (induction js arbitrary: s) (simp_all add: calls_put_frag)

lemma no_alloc_frag_calls:
  "filter is_alloc (concat (map (frag_calls c m n r) js)) = []"
  by (induction js) (simp_all add: frag_calls_def)

text \<open>
  Claim C9. The code returned is \<open>MIKERR_BAD_PTR\<close> for a null argument or an empty
  payload and \<open>MIKERR_NONE\<close> otherwise, never another member of the error domain, and
  so not the out-of-memory code. And \<^verbatim>\<open>mikpack\<close> allocates nothing: when it returns
  \<open>MIKERR_BAD_PTR\<close> it has made no call at all, and otherwise it has called \<^verbatim>\<open>mikid\<close>
  once and then, for each fragment in turn, \<^verbatim>\<open>mikmeta_serialize\<close> once and \<^verbatim>\<open>memcpy\<close>
  once, so that the calls of the allocator on record are those of before the call. The
  function of the model is total: the loop has its termination proof.
\<close>

theorem mikpack_codes_and_calls:
  fixes c :: mikcfg and mikid len :: nat and pack :: "mikpack_t option"
    and src :: "(nat \<Rightarrow> byte) option" and dest :: "addr option" and s :: store
  defines "res \<equiv> mikpack c mikid pack src len dest s"
  defines "n \<equiv> unat (fst (fragments c len))"
  defines "r \<equiv> len mod MIKPACK_FRAG_SIZE c"
  shows "fst res = (if pack = None \<or> src = None \<or> len = 0 \<or> dest = None
                    then MIKERR_BAD_PTR else MIKERR_NONE)
       \<and> fst res \<in> {MIKERR_NONE, MIKERR_BAD_PTR}
       \<and> fst res \<noteq> ERR_MEMORY
       \<and> calls (snd (snd res))
           = (if pack = None \<or> src = None \<or> len = 0 \<or> dest = None
              then calls s
              else calls s @ Call_mikid
                     # concat (map (frag_calls c (metadata0 mikid) n r) [0 ..< n]))
       \<and> filter is_alloc (calls (snd (snd res))) = filter is_alloc (calls s)"
proof (cases "pack = None \<or> src = None \<or> len = 0 \<or> dest = None")
  case True
  then have "res = (MIKERR_BAD_PTR, pack, s)" by (simp add: res_def mikpack_def)
  with True show ?thesis by simp
next
  case False
  then obtain h sr d where args: "pack = Some h" "src = Some sr" "dest = Some d"
    and len: "0 < len"
    by auto
  let ?f = "fold (put_frag c sr (metadata0 mikid) n r) [0 ..< n]
              (s\<lparr>calls := calls s @ [Call_mikid]\<rparr>)"
  have res: "res = (MIKERR_NONE, Some (h\<lparr>ref_count := 0, data := Some d\<rparr>), ?f)"
    by (simp only: res_def args n_def r_def mikpack_success [OF len])
  have trace: "calls ?f
      = calls s @ Call_mikid # concat (map (frag_calls c (metadata0 mikid) n r) [0 ..< n])"
    by (simp add: calls_fold)
  have "filter is_alloc (calls ?f) = filter is_alloc (calls s)"
    by (simp add: trace no_alloc_frag_calls)
  with False trace show ?thesis by (simp add: res)
qed

text \<open>
  A destination of 17 octets allocated before the call. Packing three octets adds the call
  of \<^verbatim>\<open>mikid\<close> and the two calls for each of the two fragments, and no allocation; an
  empty payload adds no call.
\<close>

theorem mikpack_codes_and_calls_witness:
  "mikpack cfg2 7 (Some handle0) (Some payload0) 3 (Some 4096) allocated_store
     = (MIKERR_NONE, Some \<lparr>ref_count = 0, data = Some 4096\<rparr>,
        snd (snd (mikpack cfg2 7 (Some handle0) (Some payload0) 3 (Some 4096) allocated_store)))
   \<and> calls (snd (snd
        (mikpack cfg2 7 (Some handle0) (Some payload0) 3 (Some 4096) allocated_store)))
       = [Call_mik_try_alloc None 17,
          Call_mikid,
          Call_mikmeta_serialize
            \<lparr>id_meta = 7, type_meta = MIK_DATA, part_meta = 0, size_meta = 2\<rparr> 0,
          Call_memcpy 6 0 2,
          Call_mikmeta_serialize
            \<lparr>id_meta = 7, type_meta = MIK_DATA, part_meta = 1, size_meta = 1\<rparr> 8,
          Call_memcpy 14 2 1]
   \<and> filter is_alloc (calls (snd (snd
        (mikpack cfg2 7 (Some handle0) (Some payload0) 3 (Some 4096) allocated_store))))
       = [Call_mik_try_alloc None 17]
   \<and> fst (mikpack cfg2 7 (Some handle0) (Some payload0) 0 (Some 4096) allocated_store)
       = MIKERR_BAD_PTR
   \<and> calls (snd (snd
        (mikpack cfg2 7 (Some handle0) (Some payload0) 0 (Some 4096) allocated_store)))
       = [Call_mik_try_alloc None 17]"
proof -
  have n: "unat (fst (fragments cfg2 3)) = 2"
    by (simp add: unat_fragments ceil_count_def cfg2_def)
  have F: "MIKPACK_FRAG_SIZE cfg2 = 2" and R: "MIKPACK_REAL_FRAG_SIZE cfg2 = 8"
    and M: "MIKMETA_SERIALIZED_OCTETS cfg2 = 6"
    by (simp_all add: cfg2_def)
  have upt: "[0 ..< 2] = [0, 1::nat]" by (simp add: upt_rec)
  have o0: "frag_offset cfg2 0 = 0" and o1: "frag_offset cfg2 (Suc 0) = 8"
    by (simp_all add: frag_offset_def R)
  have old: "calls allocated_store = [Call_mik_try_alloc None 17]"
    by (simp add: allocated_store_def)
  have fc0: "frag_calls cfg2 (metadata0 7) 2 (Suc 0) 0
      = [Call_mikmeta_serialize
            \<lparr>id_meta = 7, type_meta = MIK_DATA, part_meta = 0, size_meta = 2\<rparr> 0,
          Call_memcpy 6 0 2]"
    and fc1: "frag_calls cfg2 (metadata0 7) 2 (Suc 0) (Suc 0)
      = [Call_mikmeta_serialize
            \<lparr>id_meta = 7, type_meta = MIK_DATA, part_meta = 1, size_meta = 1\<rparr> 8,
          Call_memcpy 14 2 1]"
    by (simp_all add: frag_calls_def frag_meta_metadata0 frag_size_def o0 o1 F M)
  note good = mikpack_codes_and_calls
    [of cfg2 7 "Some handle0" "Some payload0" 3 "Some 4096" allocated_store]
  note bad = mikpack_codes_and_calls
    [of cfg2 7 "Some handle0" "Some payload0" 0 "Some 4096" allocated_store]
  from good have code: "fst (mikpack cfg2 7 (Some handle0) (Some payload0) 3 (Some 4096)
      allocated_store) = MIKERR_NONE"
    by simp
  have hdl: "fst (snd (mikpack cfg2 7 (Some handle0) (Some payload0) 3 (Some 4096)
      allocated_store)) = Some \<lparr>ref_count = 0, data = Some 4096\<rparr>"
    by (simp add: mikpack_success handle0_def)
  have a: "mikpack cfg2 7 (Some handle0) (Some payload0) 3 (Some 4096) allocated_store
     = (MIKERR_NONE, Some \<lparr>ref_count = 0, data = Some 4096\<rparr>,
        snd (snd (mikpack cfg2 7 (Some handle0) (Some payload0) 3 (Some 4096) allocated_store)))"
    using code hdl by (simp add: prod_eq_iff)
  from good have b: "calls (snd (snd
        (mikpack cfg2 7 (Some handle0) (Some payload0) 3 (Some 4096) allocated_store)))
       = [Call_mik_try_alloc None 17,
          Call_mikid,
          Call_mikmeta_serialize
            \<lparr>id_meta = 7, type_meta = MIK_DATA, part_meta = 0, size_meta = 2\<rparr> 0,
          Call_memcpy 6 0 2,
          Call_mikmeta_serialize
            \<lparr>id_meta = 7, type_meta = MIK_DATA, part_meta = 1, size_meta = 1\<rparr> 8,
          Call_memcpy 14 2 1]"
    by (simp add: n F upt old fc0 fc1)
  from good [THEN conjunct2, THEN conjunct2, THEN conjunct2, THEN conjunct2]
  have c: "filter is_alloc (calls (snd (snd
        (mikpack cfg2 7 (Some handle0) (Some payload0) 3 (Some 4096) allocated_store))))
       = [Call_mik_try_alloc None 17]"
    by (simp only: old filter.simps is_alloc.simps if_True)
  from bad have d: "fst (mikpack cfg2 7 (Some handle0) (Some payload0) 0 (Some 4096)
      allocated_store) = MIKERR_BAD_PTR"
    and e: "calls (snd (snd
        (mikpack cfg2 7 (Some handle0) (Some payload0) 0 (Some 4096) allocated_store)))
       = [Call_mik_try_alloc None 17]"
    by (simp_all add: old)
  show ?thesis by (intro conjI a b c d e)
qed

subsection \<open>The layout of the fragments\<close>

text \<open>
  Claim C5. After a successful call, for constants related as the headers relate them,
  fragment \<open>i\<close> of the \<open>n\<close> written starts at \<open>i * MIKPACK_REAL_FRAG_SIZE\<close>: there are
  the octets of its header, then at once the octets of the payload from
  \<open>i * MIKPACK_FRAG_SIZE\<close> on, as many as the size in the header. That size is
  \<open>MIKPACK_FRAG_SIZE\<close> for every fragment but the last, and for the last one the
  remainder of \<open>len\<close> when it is not zero, \<open>MIKPACK_FRAG_SIZE\<close> when it is.
\<close>

theorem mikpack_layout:
  fixes c :: mikcfg and len i mikid :: nat and src :: "nat \<Rightarrow> byte"
    and h :: mikpack_t and d :: addr and s :: store
  defines "n \<equiv> unat (fst (fragments c len))"
  defines "sz \<equiv> (if Suc i = n \<and> len mod MIKPACK_FRAG_SIZE c \<noteq> 0
                   then len mod MIKPACK_FRAG_SIZE c else MIKPACK_FRAG_SIZE c)"
  defines "hdr \<equiv> \<lparr>id_meta = mikid, type_meta = MIK_DATA, part_meta = word_of_nat i,
                    size_meta = sz\<rparr>"
  defines "s' \<equiv> snd (snd (mikpack c mikid (Some h) (Some src) len (Some d) s))"
  assumes ok: "cfg_ok c" and len: "0 < len" and i: "i < n"
  shows "meta_calls s' ! (length (meta_calls s) + i) = hdr
       \<and> (\<forall>k < MIKMETA_SERIALIZED_OCTETS c.
            dest_octets s' (i * MIKPACK_REAL_FRAG_SIZE c + k) = Some (Hdr hdr k))
       \<and> (\<forall>j < sz.
            dest_octets s' (i * MIKPACK_REAL_FRAG_SIZE c + MIKMETA_SERIALIZED_OCTETS c + j)
              = Some (Oct (src (i * MIKPACK_FRAG_SIZE c + j))))"
proof -
  let ?F = "MIKPACK_FRAG_SIZE c" and ?M = "MIKMETA_SERIALIZED_OCTETS c"
  let ?r = "len mod ?F"
  let ?s = "s\<lparr>calls := calls s @ [Call_mikid]\<rparr>"
  let ?f = "fold (put_frag c src (metadata0 mikid) n ?r) [0 ..< n] ?s"
  from ok have F: "0 < ?F" by (simp add: cfg_ok_def)
  then have r: "?r \<le> ?F" by simp
  have "unat (fst (fragments c len)) < 2 ^ LENGTH(16)" by (rule unsigned_less)
  then have n16: "n \<le> 2 ^ 16" by (simp add: n_def)
  have s': "s' = ?f" by (simp only: s'_def n_def mikpack_success [OF len] snd_conv)
  have sz: "frag_size c n ?r i = sz" by (simp add: frag_size_def sz_def)
  have hdr: "frag_meta c (metadata0 mikid) n ?r i = hdr"
    by (simp only: frag_meta_metadata0 sz hdr_def)
  have cell: "dest_octets ?f (i * MIKPACK_REAL_FRAG_SIZE c + ofs) =
        Some (if ofs < ?M then Hdr hdr ofs else Oct (src (i * ?F + (ofs - ?M))))"
    if "ofs < ?M + sz" for ofs
    using dest_octets_fold_inside [OF ok r n16 i, of ofs n src "metadata0 mikid" ?s] that
    by (simp only: sz hdr)
  have calls: "meta_calls ?f ! (length (meta_calls s) + i) = hdr"
    using i by (simp add: meta_calls_fold hdr)
  have headers: "\<forall>k < ?M. dest_octets ?f (i * MIKPACK_REAL_FRAG_SIZE c + k) = Some (Hdr hdr k)"
    using cell by simp
  have payload: "\<forall>j < sz. dest_octets ?f (i * MIKPACK_REAL_FRAG_SIZE c + ?M + j)
                  = Some (Oct (src (i * ?F + j)))"
  proof (intro allI impI)
    fix j assume "j < sz"
    then have "?M + j < ?M + sz" by simp
    from cell [OF this] show "dest_octets ?f (i * MIKPACK_REAL_FRAG_SIZE c + ?M + j)
                  = Some (Oct (src (i * ?F + j)))"
      by (simp add: add.assoc)
  qed
  show ?thesis unfolding s' by (intro conjI calls headers payload)
qed

text \<open>
  The last of the five fragments of nine octets: its header ends at offset \<open>37\<close>, and
  offset \<open>38\<close> holds the ninth octet of the payload.
\<close>

theorem mikpack_layout_witness:
  "cfg_ok cfg2 \<and> (0::nat) < 9 \<and> 4 < unat (fst (fragments cfg2 9))
   \<and> meta_calls (snd (snd
        (mikpack cfg2 7 (Some handle0) (Some payload0) 9 (Some 4096) empty_store))) ! 4
       = \<lparr>id_meta = 7, type_meta = MIK_DATA, part_meta = 4, size_meta = 1\<rparr>
   \<and> dest_octets (snd (snd
        (mikpack cfg2 7 (Some handle0) (Some payload0) 9 (Some 4096) empty_store))) 37
       = Some (Hdr \<lparr>id_meta = 7, type_meta = MIK_DATA, part_meta = 4, size_meta = 1\<rparr> 5)
   \<and> dest_octets (snd (snd
        (mikpack cfg2 7 (Some handle0) (Some payload0) 9 (Some 4096) empty_store))) 38
       = Some (Oct 73)"
proof -
  have ok: "cfg_ok cfg2" by (simp add: cfg_ok_def cfg2_def)
  have n: "unat (fst (fragments cfg2 9)) = 5"
    by (simp add: unat_fragments ceil_count_def cfg2_def)
  have F: "MIKPACK_FRAG_SIZE cfg2 = 2" and R: "MIKPACK_REAL_FRAG_SIZE cfg2 = 8"
    and M: "MIKMETA_SERIALIZED_OCTETS cfg2 = 6"
    by (simp_all add: cfg2_def)
  have i: "4 < unat (fst (fragments cfg2 9))" by (simp add: n)
  note L = mikpack_layout [OF ok _ i, of 7 handle0 payload0 4096 empty_store, simplified n F R M]
  from L have a: "meta_calls (snd (snd
        (mikpack cfg2 7 (Some handle0) (Some payload0) 9 (Some 4096) empty_store))) ! 4
       = \<lparr>id_meta = 7, type_meta = MIK_DATA, part_meta = 4, size_meta = 1\<rparr>"
    by (simp add: empty_store_def)
  from L have "\<forall>k<6. dest_octets (snd (snd
        (mikpack cfg2 7 (Some handle0) (Some payload0) 9 (Some 4096) empty_store))) (32 + k)
       = Some (Hdr \<lparr>id_meta = 7, type_meta = MIK_DATA, part_meta = 4, size_meta = 1\<rparr> k)"
    by simp
  from this [rule_format, of 5]
  have b: "dest_octets (snd (snd
        (mikpack cfg2 7 (Some handle0) (Some payload0) 9 (Some 4096) empty_store))) 37
       = Some (Hdr \<lparr>id_meta = 7, type_meta = MIK_DATA, part_meta = 4, size_meta = 1\<rparr> 5)"
    by simp
  from L have "dest_octets (snd (snd
        (mikpack cfg2 7 (Some handle0) (Some payload0) 9 (Some 4096) empty_store))) 38
       = Some (Oct (payload0 8))"
    by simp
  then have c: "dest_octets (snd (snd
        (mikpack cfg2 7 (Some handle0) (Some payload0) 9 (Some 4096) empty_store))) 38
       = Some (Oct 73)"
    by (simp add: payload0_def)
  show ?thesis by (intro conjI ok i a b c) simp
qed

lemma hdr_fold:
  assumes "dest_octets (fold (put_frag c src m n r) js s) x = Some (Hdr m' k)"
  shows "dest_octets s x = Some (Hdr m' k) \<or> (\<exists>i\<in>set js. m' = frag_meta c m n r i)"
  using assms
proof (induction js arbitrary: s)
  case Nil
  then show ?case by simp
next
  case (Cons j js)
  from Cons.prems have "dest_octets (fold (put_frag c src m n r) js (put_frag c src m n r j s)) x
      = Some (Hdr m' k)" by simp
  from Cons.IH [OF this]
  consider "dest_octets (put_frag c src m n r j s) x = Some (Hdr m' k)"
    | "\<exists>i\<in>set js. m' = frag_meta c m n r i" by blast
  then show ?case
  proof cases
    case 1
    then show ?thesis
      by (auto simp: dest_octets_put_frag split: if_splits)
  next
    case 2
    then show ?thesis by auto
  qed
qed

text \<open>
  Claim C8. A successful call serializes one header for each fragment, each with the
  identifier that the one call of \<^verbatim>\<open>mikid\<close> returned and with the type \<open>MIK_DATA\<close>; and
  every header octet in the memory behind \<^verbatim>\<open>dest\<close> afterwards was there before or
  belongs to such a header.
\<close>

theorem mikpack_headers_uniform:
  fixes c :: mikcfg and len mikid :: nat and src :: "nat \<Rightarrow> byte"
    and h :: mikpack_t and d :: addr and s :: store
  defines "s' \<equiv> snd (snd (mikpack c mikid (Some h) (Some src) len (Some d) s))"
  assumes len: "0 < len"
  shows "length (meta_calls s') = length (meta_calls s) + unat (fst (fragments c len))
       \<and> (\<forall>m \<in> set (drop (length (meta_calls s)) (meta_calls s')).
            id_meta m = mikid \<and> type_meta m = MIK_DATA)
       \<and> (\<forall>x m k. dest_octets s' x = Some (Hdr m k) \<longrightarrow>
            dest_octets s x = Some (Hdr m k) \<or> id_meta m = mikid \<and> type_meta m = MIK_DATA)"
proof -
  let ?n = "unat (fst (fragments c len))" and ?r = "len mod MIKPACK_FRAG_SIZE c"
  let ?f = "fold (put_frag c src (metadata0 mikid) ?n ?r) [0 ..< ?n]
              (s\<lparr>calls := calls s @ [Call_mikid]\<rparr>)"
  have s': "s' = ?f" by (simp only: s'_def mikpack_success [OF len] snd_conv)
  have a: "length (meta_calls ?f) = length (meta_calls s) + ?n"
    by (simp add: meta_calls_fold)
  have b: "\<forall>m \<in> set (drop (length (meta_calls s)) (meta_calls ?f)).
            id_meta m = mikid \<and> type_meta m = MIK_DATA"
    by (auto simp: meta_calls_fold frag_meta_metadata0)
  have c: "\<forall>x m k. dest_octets ?f x = Some (Hdr m k) \<longrightarrow>
            dest_octets s x = Some (Hdr m k) \<or> id_meta m = mikid \<and> type_meta m = MIK_DATA"
  proof (intro allI impI)
    fix x m k
    assume "dest_octets ?f x = Some (Hdr m k)"
    from hdr_fold [OF this]
    show "dest_octets s x = Some (Hdr m k) \<or> id_meta m = mikid \<and> type_meta m = MIK_DATA"
      by (auto simp: frag_meta_metadata0)
  qed
  show ?thesis unfolding s' by (intro conjI a b c)
qed

text \<open>
  The five headers of the nine octets packed with the identifier \<open>7\<close>.
\<close>

theorem mikpack_headers_uniform_witness:
  "(0::nat) < 9
   \<and> map id_meta (meta_calls (snd (snd
        (mikpack cfg2 7 (Some handle0) (Some payload0) 9 (Some 4096) empty_store))))
       = [7, 7, 7, 7, 7]
   \<and> map type_meta (meta_calls (snd (snd
        (mikpack cfg2 7 (Some handle0) (Some payload0) 9 (Some 4096) empty_store))))
       = [MIK_DATA, MIK_DATA, MIK_DATA, MIK_DATA, MIK_DATA]"
proof -
  let ?calls = "meta_calls (snd (snd
        (mikpack cfg2 7 (Some handle0) (Some payload0) 9 (Some 4096) empty_store)))"
  have n: "unat (fst (fragments cfg2 9)) = 5"
    by (simp add: unat_fragments ceil_count_def cfg2_def)
  from mikpack_headers_uniform [of 9 cfg2 7 handle0 payload0 4096 empty_store]
  have len: "length ?calls = 5"
    and all: "\<forall>m \<in> set ?calls. id_meta m = 7 \<and> type_meta m = MIK_DATA"
    by (simp_all add: n empty_store_def)
  have rep: "replicate 5 x = [x, x, x, x, x]" for x :: 'a
    by (simp add: eval_nat_numeral)
  from all have "replicate (length (map id_meta ?calls)) 7 = map id_meta ?calls"
    by (intro replicate_length_same) auto
  then have ids: "map id_meta ?calls = [7, 7, 7, 7, 7]"
    by (simp add: len rep)
  from all have "replicate (length (map type_meta ?calls)) MIK_DATA = map type_meta ?calls"
    by (intro replicate_length_same) auto
  then have types: "map type_meta ?calls = [MIK_DATA, MIK_DATA, MIK_DATA, MIK_DATA, MIK_DATA]"
    by (simp add: len rep)
  show ?thesis by (intro conjI ids types) simp
qed

end
